theory Spec2Isabelle
  imports Complex_Main
begin

section \<open>Python text primitives used by \<open>scripts/start.py\<close>\<close>

text \<open>
  Text is modelled as \<open>string\<close> over ASCII. The helpers below are the library calls
  the script makes on text: \<open>str.strip()\<close>, \<open>str.split()\<close>, \<open>str.isdigit()\<close>,
  \<open>int(s)\<close> and \<open>str(n)\<close>.
\<close>

definition isspace :: "char \<Rightarrow> bool" where
  "isspace c = (c \<in> set [CHR 0x09, CHR 0x0A, CHR 0x0B, CHR 0x0C, CHR 0x0D,
                          CHR 0x1C, CHR 0x1D, CHR 0x1E, CHR 0x1F, CHR 0x20])"

definition strip :: "string \<Rightarrow> string" where
  "strip s = rev (dropWhile isspace (rev (dropWhile isspace s)))"

fun split_acc :: "string \<Rightarrow> string \<Rightarrow> string list" where
  "split_acc cur [] = (if cur = [] then [] else [cur])"
| "split_acc cur (c # cs) =
     (if isspace c then (if cur = [] then split_acc [] cs else cur # split_acc [] cs)
      else split_acc (cur @ [c]) cs)"

definition split_ws :: "string \<Rightarrow> string list" where
  "split_ws s = split_acc [] s"

definition is_digit :: "char \<Rightarrow> bool" where
  "is_digit c = (c \<in> set ''0123456789'')"

definition isdigit :: "string \<Rightarrow> bool" where
  "isdigit s = (s \<noteq> [] \<and> list_all is_digit s)"

definition digit_val :: "char \<Rightarrow> nat" where
  "digit_val c = of_char c - 48"

definition digit_char :: "nat \<Rightarrow> char" where
  "digit_char n = char_of (48 + n)"

text \<open>
  \<open>int(s)\<close> on a decimal literal: digits, with single underscores allowed between two
  digits. \<open>None\<close> stands for \<open>ValueError\<close>.
  The limit that newer Python versions put on the number of digits \<open>int\<close> accepts
  (4300 by default) is not modelled; no process identifier comes near it.
\<close>

fun parse_digits :: "nat \<Rightarrow> string \<Rightarrow> nat option" where
  "parse_digits acc [] = Some acc"
| "parse_digits acc (c # cs) =
     (if is_digit c then parse_digits (10 * acc + digit_val c) cs
      else if c = CHR ''_'' then
        (case cs of
           [] \<Rightarrow> None
         | d # ds \<Rightarrow> if is_digit d then parse_digits (10 * acc + digit_val d) ds else None)
      else None)"

definition parse_nat :: "string \<Rightarrow> nat option" where
  "parse_nat s = (case s of [] \<Rightarrow> None
                  | c # cs \<Rightarrow> if is_digit c then parse_digits 0 s else None)"

definition py_int :: "string \<Rightarrow> int option" where
  "py_int s =
     (case strip s of
        [] \<Rightarrow> None
      | c # cs \<Rightarrow>
          if c = CHR ''-'' then map_option (\<lambda>n. - int n) (parse_nat cs)
          else if c = CHR ''+'' then map_option int (parse_nat cs)
          else map_option int (parse_nat (c # cs)))"

function str_nat :: "nat \<Rightarrow> string" where
  "str_nat n = (if n < 10 then [digit_char n] else str_nat (n div 10) @ [digit_char (n mod 10)])"
  by pat_completeness auto
termination
  by (relation "measure id") auto

declare str_nat.simps [simp del]

definition str_int :: "int \<Rightarrow> string" where
  "str_int i = (if i < 0 then CHR ''-'' # str_nat (nat (- i)) else str_nat (nat i))"

section \<open>The machine the script runs on\<close>

text \<open>
  Exceptions are values. Only the exception classes the script can meet are listed.
\<close>

datatype error =
    ProcessLookupError
  | PermissionError
  | FileNotFoundError
  | OverflowError
  | CalledProcessError
  | KeyError
  | ValueError
  | SystemExit int

datatype signal = SIG0 | SIGTERM | SIGKILL

text \<open>
  Every call the script makes on the operating system is appended to a trace, oldest
  first, with the outcome the system gave where the script looks at it.
\<close>

datatype event =
    Kill int signal "error option"
  | Clock real
  | Sleep real
  | Pgrep string
  | Run "string list"
  | Popen "string list"
  | Stderr string
  | Terminate int
  | Poll int "int option"
  | ForceKill int

text \<open>
  The operating system is a parameter: a state of any type \<open>'e\<close> and one function per
  call. Nothing is assumed about what processes do, when they exit or how the clock
  runs. Clock readings (\<open>time.time()\<close>) are taken as exact reals.
\<close>

record 'e kernel =
  sys_kill :: "int \<Rightarrow> signal \<Rightarrow> 'e \<Rightarrow> error option \<times> 'e"
  sys_time :: "'e \<Rightarrow> real \<times> 'e"
  sys_sleep :: "real \<Rightarrow> 'e \<Rightarrow> 'e"
  sys_pgrep :: "string \<Rightarrow> 'e \<Rightarrow> (error + int \<times> string) \<times> 'e"
  sys_run :: "string list \<Rightarrow> 'e \<Rightarrow> error option \<times> 'e"
  sys_popen :: "string list \<Rightarrow> 'e \<Rightarrow> (error + int) \<times> 'e"
  sys_terminate :: "int \<Rightarrow> 'e \<Rightarrow> 'e"
  sys_poll :: "int \<Rightarrow> 'e \<Rightarrow> int option \<times> 'e"
  sys_forcekill :: "int \<Rightarrow> 'e \<Rightarrow> 'e"

record 'e world =
  trace :: "event list"
  files :: "string \<rightharpoonup> string"
  stop_event :: bool
  env :: 'e

definition os_kill :: "'e kernel \<Rightarrow> int \<Rightarrow> signal \<Rightarrow> 'e world \<Rightarrow> error option \<times> 'e world" where
  "os_kill k pid sg w =
     (case sys_kill k pid sg (env w) of
        (r, e') \<Rightarrow> (r, w\<lparr>trace := trace w @ [Kill pid sg r], env := e'\<rparr>))"

definition time_time :: "'e kernel \<Rightarrow> 'e world \<Rightarrow> real \<times> 'e world" where
  "time_time k w =
     (case sys_time k (env w) of
        (t, e') \<Rightarrow> (t, w\<lparr>trace := trace w @ [Clock t], env := e'\<rparr>))"

definition time_sleep :: "'e kernel \<Rightarrow> real \<Rightarrow> 'e world \<Rightarrow> 'e world" where
  "time_sleep k d w = w\<lparr>trace := trace w @ [Sleep d], env := sys_sleep k d (env w)\<rparr>"

section \<open>Terminator: \<open>pid_exists\<close> and \<open>terminate_pid\<close>\<close>

definition pid_exists :: "'e kernel \<Rightarrow> int \<Rightarrow> 'e world \<Rightarrow> (error + bool) \<times> 'e world" where
  "pid_exists k pid w =
     (case os_kill k pid SIG0 w of
        (None, w') \<Rightarrow> (Inr True, w')
      | (Some ProcessLookupError, w') \<Rightarrow> (Inr False, w')
      | (Some PermissionError, w') \<Rightarrow> (Inr True, w')
      | (Some e, w') \<Rightarrow> (Inl e, w'))"

text \<open>
  The \<open>while time.time() - start < timeout\<close> loop of \<open>terminate_pid\<close>. It leaves
  either by the \<open>return\<close> in its body or because its condition fails. Whether it
  ever leaves depends on the clock, so not leaving is the value \<open>None\<close>.
\<close>

datatype loop_exit = Returned | TimedOut

partial_function (option) poll_until ::
  "'e kernel \<Rightarrow> int \<Rightarrow> real \<Rightarrow> real \<Rightarrow> 'e world \<Rightarrow> ((error + loop_exit) \<times> 'e world) option" where
  "poll_until k pid start timeout w =
     (case time_time k w of
        (t, w1) \<Rightarrow>
          if t - start < timeout then
            (case pid_exists k pid w1 of
               (Inl e, w2) \<Rightarrow> Some (Inl e, w2)
             | (Inr alive, w2) \<Rightarrow>
                 if \<not> alive then Some (Inr Returned, w2)
                 else poll_until k pid start timeout (time_sleep k (1 / 10) w2))
          else Some (Inr TimedOut, w1))"

declare poll_until.simps [code]

definition terminate_pid ::
  "'e kernel \<Rightarrow> int \<Rightarrow> real \<Rightarrow> 'e world \<Rightarrow> ((error + unit) \<times> 'e world) option" where
  "terminate_pid k pid timeout w =
     (case pid_exists k pid w of
        (Inl e, w1) \<Rightarrow> Some (Inl e, w1)
      | (Inr alive, w1) \<Rightarrow>
          if \<not> alive then Some (Inr (), w1)
          else
            (case os_kill k pid SIGTERM w1 of
               (Some ProcessLookupError, w2) \<Rightarrow> Some (Inr (), w2)
             | (Some e, w2) \<Rightarrow> Some (Inl e, w2)
             | (None, w2) \<Rightarrow>
                 (case time_time k w2 of
                    (start, w3) \<Rightarrow>
                      (case poll_until k pid start timeout w3 of
                         None \<Rightarrow> None
                       | Some (Inl e, w4) \<Rightarrow> Some (Inl e, w4)
                       | Some (Inr Returned, w4) \<Rightarrow> Some (Inr (), w4)
                       | Some (Inr TimedOut, w4) \<Rightarrow>
                           (case os_kill k pid SIGKILL w4 of
                              (Some ProcessLookupError, w5) \<Rightarrow> Some (Inr (), w5)
                            | (Some e, w5) \<Rightarrow> Some (Inl e, w5)
                            | (None, w5) \<Rightarrow> Some (Inr (), w5))))))"

text \<open>
  Computations that may raise and may fail to return: \<open>None\<close> is a run that never
  returns, \<open>Inl e\<close> an exception leaving the function, \<open>Inr x\<close> a normal return.
  \<open>and_then\<close> is sequencing, \<open>for_each\<close> a \<open>for\<close> loop over a list.
\<close>

type_synonym ('a, 'e) act = "'e world \<Rightarrow> ((error + 'a) \<times> 'e world) option"

definition and_then :: "('a, 'e) act \<Rightarrow> ('a \<Rightarrow> ('b, 'e) act) \<Rightarrow> ('b, 'e) act" where
  "and_then m f w =
     (case m w of
        None \<Rightarrow> None
      | Some (Inl e, w1) \<Rightarrow> Some (Inl e, w1)
      | Some (Inr x, w1) \<Rightarrow> f x w1)"

fun for_each :: "('a \<Rightarrow> (unit, 'e) act) \<Rightarrow> 'a list \<Rightarrow> (unit, 'e) act" where
  "for_each body [] w = Some (Inr (), w)"
| "for_each body (x # xs) w = and_then (body x) (\<lambda>u. for_each body xs) w"

section \<open>Terminator: \<open>kill_pidfile\<close> and \<open>kill_by_pattern\<close>\<close>

text \<open>
  Marker files and env files live in \<open>files\<close>, keyed by their path below the
  repository root. \<open>unlink\<close> is \<open>Path.unlink()\<close>.
\<close>

definition unlink :: "string \<Rightarrow> 'e world \<Rightarrow> error option \<times> 'e world" where
  "unlink path w =
     (if files w path = None then (Some FileNotFoundError, w)
      else (None, w\<lparr>files := (files w)(path := None)\<rparr>))"

definition kill_pidfile :: "'e kernel \<Rightarrow> string \<Rightarrow> (unit, 'e) act" where
  "kill_pidfile k path w =
     (case files w path of
        None \<Rightarrow> Some (Inr (), w)
      | Some text \<Rightarrow>
          and_then
            (case py_int (strip text) of
               None \<Rightarrow> (\<lambda>w. Some (Inr (), w))
             | Some pid \<Rightarrow> if pid \<noteq> 0 then terminate_pid k pid 2 else (\<lambda>w. Some (Inr (), w)))
            (\<lambda>u w1.
               case unlink path w1 of
                 (None, w2) \<Rightarrow> Some (Inr (), w2)
               | (Some FileNotFoundError, w2) \<Rightarrow> Some (Inr (), w2)
               | (Some e, w2) \<Rightarrow> Some (Inl e, w2))
            w)"

text \<open>
  \<open>subprocess.run(["pgrep", "-f", pattern], check=False)\<close>: it raises when the
  program cannot be started, and otherwise gives the return code and the standard output.
\<close>

definition run_pgrep :: "'e kernel \<Rightarrow> string \<Rightarrow> 'e world \<Rightarrow> (error + int \<times> string) \<times> 'e world" where
  "run_pgrep k pattern w =
     (case sys_pgrep k pattern (env w) of
        (r, e') \<Rightarrow> (r, w\<lparr>trace := trace w @ [Pgrep pattern], env := e'\<rparr>))"

definition kill_token :: "'e kernel \<Rightarrow> string \<Rightarrow> (unit, 'e) act" where
  "kill_token k token w =
     (if \<not> isdigit token then Some (Inr (), w)
      else (case py_int token of
              None \<Rightarrow> Some (Inl ValueError, w)
            | Some pid \<Rightarrow> terminate_pid k pid 2 w))"

definition kill_by_pattern :: "'e kernel \<Rightarrow> string \<Rightarrow> (unit, 'e) act" where
  "kill_by_pattern k pattern w =
     (case run_pgrep k pattern w of
        (Inl e, w1) \<Rightarrow> Some (Inl e, w1)
      | (Inr (returncode, stdout), w1) \<Rightarrow>
          if returncode \<noteq> 0 then Some (Inr (), w1)
          else for_each (kill_token k) (split_ws stdout) w1)"

section \<open>Supervisor: \<open>start_process\<close>\<close>

definition LOGS :: "string \<rightharpoonup> string" where
  "LOGS = map_of [(''network'', ''network.log''), (''auth'', ''auth.log''), (''website'', ''website.log'')]"

definition PIDS :: "string \<rightharpoonup> string" where
  "PIDS = map_of [(''network'', ''network.pid''), (''auth'', ''auth.pid''), (''website'', ''website.pid'')]"

text \<open>
  The parent directory of a log is the repository root, so \<open>mkdir\<close> has nothing to do.
  Opening the log for appending creates it when missing. The working directory and the
  environment go to \<open>Popen\<close> unchanged and nothing else reads them; the handle
  returned is the process identifier.
\<close>

definition open_append :: "string \<Rightarrow> 'e world \<Rightarrow> 'e world" where
  "open_append path w =
     (case files w path of
        None \<Rightarrow> w\<lparr>files := (files w)(path \<mapsto> [])\<rparr>
      | Some text \<Rightarrow> w)"

definition write_text :: "string \<Rightarrow> string \<Rightarrow> 'e world \<Rightarrow> 'e world" where
  "write_text path text w = w\<lparr>files := (files w)(path \<mapsto> text)\<rparr>"

definition popen :: "'e kernel \<Rightarrow> string list \<Rightarrow> 'e world \<Rightarrow> (error + int) \<times> 'e world" where
  "popen k cmd w =
     (case sys_popen k cmd (env w) of
        (r, e') \<Rightarrow> (r, w\<lparr>trace := trace w @ [Popen cmd], env := e'\<rparr>))"

definition start_process :: "'e kernel \<Rightarrow> string \<Rightarrow> string list \<Rightarrow> 'e world \<Rightarrow> (error + int) \<times> 'e world" where
  "start_process k name cmd w =
     (case LOGS name of
        None \<Rightarrow> (Inl KeyError, w)
      | Some logpath \<Rightarrow>
          (case popen k cmd (open_append logpath w) of
             (Inl e, w1) \<Rightarrow> (Inl e, w1)
           | (Inr pid, w1) \<Rightarrow>
               (case PIDS name of
                  None \<Rightarrow> (Inl KeyError, w1)
                | Some marker \<Rightarrow> (Inr pid, write_text marker (str_int pid) w1))))"

section \<open>ShutdownCoordinator: \<open>handle_signal\<close>\<close>

text \<open>
  \<open>proc.terminate()\<close>, \<open>proc.poll()\<close> and \<open>proc.kill()\<close> on the handles in
  \<open>processes\<close>; \<open>poll\<close> gives \<open>None\<close> while the process runs.
\<close>

definition proc_terminate :: "'e kernel \<Rightarrow> int \<Rightarrow> 'e world \<Rightarrow> 'e world" where
  "proc_terminate k p w = w\<lparr>trace := trace w @ [Terminate p], env := sys_terminate k p (env w)\<rparr>"

definition proc_poll :: "'e kernel \<Rightarrow> int \<Rightarrow> 'e world \<Rightarrow> int option \<times> 'e world" where
  "proc_poll k p w =
     (case sys_poll k p (env w) of
        (r, e') \<Rightarrow> (r, w\<lparr>trace := trace w @ [Poll p r], env := e'\<rparr>))"

definition proc_kill :: "'e kernel \<Rightarrow> int \<Rightarrow> 'e world \<Rightarrow> 'e world" where
  "proc_kill k p w = w\<lparr>trace := trace w @ [ForceKill p], env := sys_forcekill k p (env w)\<rparr>"

fun terminate_all :: "'e kernel \<Rightarrow> int list \<Rightarrow> 'e world \<Rightarrow> 'e world" where
  "terminate_all k [] w = w"
| "terminate_all k (proc # procs) w = terminate_all k procs (proc_terminate k proc w)"

fun kill_running :: "'e kernel \<Rightarrow> int list \<Rightarrow> 'e world \<Rightarrow> 'e world" where
  "kill_running k [] w = w"
| "kill_running k (proc # procs) w =
     (case proc_poll k proc w of
        (None, w1) \<Rightarrow> kill_running k procs (proc_kill k proc w1)
      | (Some rc, w1) \<Rightarrow> kill_running k procs w1)"

definition handle_signal :: "'e kernel \<Rightarrow> int list \<Rightarrow> 'e world \<Rightarrow> 'e world" where
  "handle_signal k processes w =
     kill_running k processes
       (time_sleep k 1 (terminate_all k processes (w\<lparr>stop_event := True\<rparr>)))"

section \<open>LogTailer: \<open>tail_file\<close>\<close>

text \<open>
  The tailer runs beside the processes that write the log and beside whoever sets the
  stop flag, so it is a machine with one step per control point of \<open>tail_file\<close>;
  between two steps the log may grow and the flag may be set. \<open>readline\<close> is
  \<open>handle.readline()\<close> on the text after the read position: up to and including
  the first newline, or all that is left when there is no newline yet.
  A line ends at LF: the translation of CR and CRLF line ends that a text-mode handle
  also does is not modelled, so the log is taken to use LF.
\<close>

datatype place =
    WaitCheck
  | WaitSleep
  | StopCheck
  | Opening
  | LoopCheck nat
  | Body nat
  | Finished
  | Raised error

record shared =
  logfile :: "string option"
  stop_set :: bool

record tailer =
  ctl :: place
  written :: "string list"
  slept :: real

fun readline :: "string \<Rightarrow> string" where
  "readline [] = []"
| "readline (c # cs) = (if c = CHR 0x0A then [c] else c # readline cs)"

definition tail_step :: "string \<Rightarrow> shared \<Rightarrow> tailer \<Rightarrow> tailer" where
  "tail_step prefix sh t =
     (case ctl t of
        WaitCheck \<Rightarrow>
          if logfile sh = None \<and> \<not> stop_set sh then t\<lparr>ctl := WaitSleep\<rparr>
          else t\<lparr>ctl := StopCheck\<rparr>
      | WaitSleep \<Rightarrow> t\<lparr>ctl := WaitCheck, slept := slept t + 2 / 10\<rparr>
      | StopCheck \<Rightarrow> if stop_set sh then t\<lparr>ctl := Finished\<rparr> else t\<lparr>ctl := Opening\<rparr>
      | Opening \<Rightarrow>
          (case logfile sh of
             None \<Rightarrow> t\<lparr>ctl := Raised FileNotFoundError\<rparr>
           | Some content \<Rightarrow> t\<lparr>ctl := LoopCheck (length content)\<rparr>)
      | LoopCheck pos \<Rightarrow> if stop_set sh then t\<lparr>ctl := Finished\<rparr> else t\<lparr>ctl := Body pos\<rparr>
      | Body pos \<Rightarrow>
          (let line = readline (drop pos (case logfile sh of None \<Rightarrow> [] | Some content \<Rightarrow> content))
           in if line \<noteq> [] then
                t\<lparr>ctl := LoopCheck (pos + length line),
                  written := written t @ [''['' @ prefix @ ''] '' @ line]\<rparr>
              else t\<lparr>ctl := LoopCheck pos, slept := slept t + 2 / 10\<rparr>)
      | Finished \<Rightarrow> t
      | Raised e \<Rightarrow> t)"

datatype move = Append string | SetStop | Step

fun make_move :: "string \<Rightarrow> move \<Rightarrow> shared \<times> tailer \<Rightarrow> shared \<times> tailer" where
  "make_move prefix (Append text) (sh, t) =
     (sh\<lparr>logfile := Some ((case logfile sh of None \<Rightarrow> [] | Some content \<Rightarrow> content) @ text)\<rparr>, t)"
| "make_move prefix SetStop (sh, t) = (sh\<lparr>stop_set := True\<rparr>, t)"
| "make_move prefix Step (sh, t) = (sh, tail_step prefix sh t)"

fun run_moves :: "string \<Rightarrow> move list \<Rightarrow> shared \<times> tailer \<Rightarrow> shared \<times> tailer" where
  "run_moves prefix [] st = st"
| "run_moves prefix (m # ms) st = run_moves prefix ms (make_move prefix m st)"

definition tail_file :: "string \<Rightarrow> move list \<Rightarrow> shared \<Rightarrow> shared \<times> tailer" where
  "tail_file prefix ms sh = run_moves prefix ms (sh, \<lparr>ctl = WaitCheck, written = [], slept = 0\<rparr>)"

section \<open>Configuration and \<open>main\<close>\<close>

definition is_linebreak :: "char \<Rightarrow> bool" where
  "is_linebreak c = (c \<in> set [CHR 0x0A, CHR 0x0B, CHR 0x0C, CHR 0x0D, CHR 0x1C, CHR 0x1D, CHR 0x1E])"

fun splitlines_acc :: "string \<Rightarrow> string \<Rightarrow> string list" where
  "splitlines_acc cur [] = (if cur = [] then [] else [cur])"
| "splitlines_acc cur [c] = (if is_linebreak c then [cur] else [cur @ [c]])"
| "splitlines_acc cur (c # d # cs) =
     (if c = CHR 0x0D \<and> d = CHR 0x0A then cur # splitlines_acc [] cs
      else if is_linebreak c then cur # splitlines_acc [] (d # cs)
      else splitlines_acc (cur @ [c]) (d # cs))"

definition splitlines :: "string \<Rightarrow> string list" where
  "splitlines s = splitlines_acc [] s"

definition add_env_line :: "(string \<rightharpoonup> string) \<Rightarrow> string \<Rightarrow> (string \<rightharpoonup> string)" where
  "add_env_line data raw =
     (let line = strip raw in
      if line = [] \<or> (case line of [] \<Rightarrow> False | c # cs \<Rightarrow> c = CHR ''#'') \<or> CHR ''='' \<notin> set line
      then data
      else data(strip (takeWhile (\<lambda>c. c \<noteq> CHR ''='') line)
                  \<mapsto> strip (tl (dropWhile (\<lambda>c. c \<noteq> CHR ''='') line))))"

definition read_env_file :: "'e world \<Rightarrow> string \<Rightarrow> (string \<rightharpoonup> string)" where
  "read_env_file w path =
     (case files w path of
        None \<Rightarrow> Map.empty
      | Some text \<Rightarrow> foldl add_env_line Map.empty (splitlines text))"

definition dict_get :: "(string \<rightharpoonup> string) \<Rightarrow> string \<Rightarrow> string \<Rightarrow> string" where
  "dict_get d key dflt = (case d key of None \<Rightarrow> dflt | Some v \<Rightarrow> v)"

definition print_stderr :: "string \<Rightarrow> 'e world \<Rightarrow> 'e world" where
  "print_stderr msg w = w\<lparr>trace := trace w @ [Stderr msg]\<rparr>"

definition ensure_website_env_local :: "(string, 'e) act" where
  "ensure_website_env_local w =
     (if files w ''website/.env.local'' \<noteq> None then Some (Inr ''website/.env.local'', w)
      else (case files w ''configs/local/.env.local'' of
              Some text \<Rightarrow> Some (Inr ''website/.env.local'', write_text ''website/.env.local'' text w)
            | None \<Rightarrow>
                Some (Inl (SystemExit 1),
                  print_stderr ''Missing website/.env.local and configs/local/.env.local. Create one first.'' w)))"

definition run :: "'e kernel \<Rightarrow> string list \<Rightarrow> (unit, 'e) act" where
  "run k cmd w =
     (case sys_run k cmd (env w) of
        (r, e') \<Rightarrow>
          (case r of
             None \<Rightarrow> Some (Inr (), w\<lparr>trace := trace w @ [Run cmd], env := e'\<rparr>)
           | Some e \<Rightarrow> Some (Inl e, w\<lparr>trace := trace w @ [Run cmd], env := e'\<rparr>)))"

record args =
  web_port :: int
  config_dir :: string
  nodes :: int
  fresh :: bool
  no_build :: bool

text \<open>
  \<open>main\<close> either leaves with an exit code or reaches the point where the three
  services run and the log streaming begins (\<open>Serving\<close>, with the list
  \<open>processes\<close>); from there on the run is \<open>tail_file\<close> and \<open>handle_signal\<close>.
  \<open>start_stack\<close> is the part of \<open>main\<close> after the configuration checks.
\<close>

datatype outcome = Exit int | Serving "int list"

definition start_stack :: "'e kernel \<Rightarrow> args \<Rightarrow> string \<Rightarrow> string \<Rightarrow> string \<Rightarrow> (outcome, 'e) act" where
  "start_stack k a service_token stripe_secret stripe_webhook =
     and_then (run k [''docker'', ''compose'', ''--env-file'', ''docker/convex/.env'',
                      ''-f'', ''docker/convex/docker-compose.yml'', ''up'', ''-d'', ''--wait'']) (\<lambda>u.
     and_then (run k [''npx'', ''convex'', ''env'', ''set'', ''CONVEX_SERVICE_TOKEN'', service_token]) (\<lambda>u.
     and_then (run k [''npx'', ''convex'', ''env'', ''set'', ''STRIPE_SECRET_KEY'', stripe_secret]) (\<lambda>u.
     and_then (run k [''npx'', ''convex'', ''env'', ''set'', ''STRIPE_WEBHOOK_SECRET'', stripe_webhook]) (\<lambda>u.
     and_then (run k [''npx'', ''convex'', ''dev'', ''--once'']) (\<lambda>u.
     and_then (\<lambda>w. Some (start_process k ''network''
                 ([''scripts/start-local-network.sh'', config_dir a, str_int (nodes a)]
                    @ (if fresh a then [''--fresh''] else [])
                    @ (if no_build a then [''--no-build''] else [])) w)) (\<lambda>p1.
     and_then (\<lambda>w. Some (start_process k ''auth'' [''npm'', ''run'', ''dev''] w)) (\<lambda>p2.
     and_then (\<lambda>w. Some (start_process k ''website''
                 [''npm'', ''run'', ''dev'', ''--'', ''--host'', ''127.0.0.1'', ''--port'',
                  str_int (web_port a)] w)) (\<lambda>p3 w.
     Some (Inr (Serving [p1, p2, p3]), w)))))))))"

definition check_config :: "'e kernel \<Rightarrow> args \<Rightarrow> string \<Rightarrow> (outcome, 'e) act" where
  "check_config k a website_env_path w =
     (let website_env = read_env_file w website_env_path;
          convex_env = read_env_file w ''docker/convex/.env'';
          vite_identity = dict_get website_env ''VITE_IDENTITY'' [];
          convex_url = dict_get website_env ''CONVEX_SELF_HOSTED_URL'' [];
          convex_admin_key = dict_get website_env ''CONVEX_SELF_HOSTED_ADMIN_KEY'' [];
          service_token = dict_get convex_env ''CONVEX_SERVICE_TOKEN'' [];
          stripe_secret = dict_get convex_env ''STRIPE_SECRET_KEY'' [];
          stripe_webhook = dict_get convex_env ''STRIPE_WEBHOOK_SECRET'' []
      in if vite_identity = [] then
           Some (Inr (Exit 1), print_stderr ''Missing VITE_IDENTITY in website/.env.local'' w)
         else if convex_url = [] \<or> convex_admin_key = [] then
           Some (Inr (Exit 1), print_stderr
             ''Missing CONVEX_SELF_HOSTED_URL or CONVEX_SELF_HOSTED_ADMIN_KEY in website/.env.local'' w)
         else if service_token = [] \<or> stripe_secret = [] \<or> stripe_webhook = [] then
           Some (Inr (Exit 1), print_stderr ''Missing Convex env vars in docker/convex/.env'' w)
         else if files w (config_dir a @ ''/node0.yaml'') = None then
           Some (Inr (Exit 1), print_stderr
             (''Missing validator configs in '' @ config_dir a @ ''. Run generate-keys first.'') w)
         else start_stack k a service_token stripe_secret stripe_webhook w)"

definition main :: "'e kernel \<Rightarrow> args \<Rightarrow> (outcome, 'e) act" where
  "main k a =
     and_then (for_each (\<lambda>key w. case PIDS key of
                                    None \<Rightarrow> Some (Inl KeyError, w)
                                  | Some path \<Rightarrow> kill_pidfile k path w)
                 [''website'', ''network'', ''auth'']) (\<lambda>u.
     and_then (for_each (kill_by_pattern k)
                 [''nullspace-simulator'', ''nullspace-node'', ''start-local-network.sh'',
                  ''tsx src/server.ts'', ''node .*vite'', ''vite'']) (\<lambda>u.
     and_then ensure_website_env_local (\<lambda>website_env_path.
     check_config k a website_env_path)))"

text \<open>
  The exit status of the program, \<open>raise SystemExit(main())\<close>: the code \<open>main\<close>
  returns, the code of a \<open>SystemExit\<close>, or 1 for any other exception that leaves
  \<open>main\<close>. A run that is serving has not exited.
\<close>

fun exit_status :: "error + outcome \<Rightarrow> int option" where
  "exit_status (Inr (Exit n)) = Some n"
| "exit_status (Inr (Serving ps)) = None"
| "exit_status (Inl (SystemExit n)) = Some n"
| "exit_status (Inl e) = Some 1"

text \<open>
  A clock that runs: \<open>c\<close> reads the time off the state of the system, a sleep of
  \<open>d\<close> seconds moves it on by at least \<open>d\<close>, and no call moves it back.
\<close>

definition clock_runs :: "'e kernel \<Rightarrow> ('e \<Rightarrow> real) \<Rightarrow> bool" where
  "clock_runs k c =
     ((\<forall>e. fst (sys_time k e) = c e \<and> c e \<le> c (snd (sys_time k e))) \<and>
      (\<forall>d e. c e + d \<le> c (sys_sleep k d e)) \<and>
      (\<forall>p sg e. c e \<le> c (snd (sys_kill k p sg e))))"

text \<open>
  The shape the trace of an escalation has, event by event. \<open>polling\<close> is the
  part after the start time was read: cycles of clock reading, liveness probe and a
  sleep of a tenth of a second, ended by a probe that no longer reports the process, or
  by a clock reading at or past the timeout followed by the forced kill.
\<close>

definition alive_reply :: "error option \<Rightarrow> bool" where
  "alive_reply r = (r = None \<or> r = Some PermissionError)"

fun polling :: "int \<Rightarrow> real \<Rightarrow> real \<Rightarrow> event list \<Rightarrow> bool" where
  "polling pid start timeout (Clock t # evs) =
     (if t - start < timeout then
        (case evs of
           Kill p SIG0 r # evs' \<Rightarrow>
             p = pid \<and>
             (if alive_reply r then
                (case evs' of
                   Sleep d # evs'' \<Rightarrow> d = 1 / 10 \<and> polling pid start timeout evs''
                 | _ \<Rightarrow> False)
              else evs' = [])
         | _ \<Rightarrow> False)
      else (case evs of [Kill p SIGKILL r] \<Rightarrow> p = pid | _ \<Rightarrow> False))"
| "polling pid start timeout _ = False"



text \<open>
  The signals a trace asks the system to deliver, in order, whether or not the system
  accepted the request; probes (signal 0) are left out.
\<close>

fun sent :: "event list \<Rightarrow> (int \<times> signal) list" where
  "sent [] = []"
| "sent (Kill p sg r # evs) = (if sg = SIG0 then sent evs else (p, sg) # sent evs)"
| "sent (ev # evs) = sent evs"

text \<open>
  The shape of the second loop of \<open>handle_signal\<close> in the trace: the processes are
  polled in order, and a forced kill follows a poll exactly when that poll reported the
  process still running.
\<close>

fun sweep :: "int list \<Rightarrow> event list \<Rightarrow> bool" where
  "sweep [] evs = (evs = [])"
| "sweep (p # ps) (Poll q None # ForceKill q' # evs) = (q = p \<and> q' = p \<and> sweep ps evs)"
| "sweep (p # ps) (Poll q (Some rc) # evs) = (q = p \<and> sweep ps evs)"
| "sweep (p # ps) evs = False"

text \<open>
  For the tailer once the stop flag is set: how many more steps it can take before it
  has finished, and how many more times it can write or sleep.
\<close>

fun steps_left :: "place \<Rightarrow> nat" where
  "steps_left WaitSleep = 3"
| "steps_left WaitCheck = 2"
| "steps_left Opening = 2"
| "steps_left (Body pos) = 2"
| "steps_left StopCheck = 1"
| "steps_left (LoopCheck pos) = 1"
| "steps_left Finished = 0"
| "steps_left (Raised e) = 0"

fun acts_left :: "place \<Rightarrow> nat" where
  "acts_left WaitSleep = 1"
| "acts_left (Body pos) = 1"
| "acts_left p = 0"

text \<open>The tailer never opens a log that is not there.\<close>

fun attached :: "shared \<times> tailer \<Rightarrow> bool" where
  "attached (sh, t) =
     (case ctl t of
        Opening \<Rightarrow> logfile sh \<noteq> None
      | StopCheck \<Rightarrow> logfile sh \<noteq> None \<or> stop_set sh
      | Raised e \<Rightarrow> False
      | _ \<Rightarrow> True)"

text \<open>
  The commands started with \<open>Popen\<close> in a trace, and what a cleanup step may do to
  the world: start nothing, and leave every file as it was except that a file of the
  set \<open>M\<close> may be removed. \<open>tame\<close> acts return, stay within that frame and do not
  raise \<open>SystemExit\<close>.
\<close>

fun spawned :: "event list \<Rightarrow> string list list" where
  "spawned [] = []"
| "spawned (Popen cmd # evs) = cmd # spawned evs"
| "spawned (ev # evs) = spawned evs"

definition frame :: "string set \<Rightarrow> 'e world \<Rightarrow> 'e world \<Rightarrow> bool" where
  "frame M w w' =
     (spawned (trace w') = spawned (trace w) \<and>
      (\<forall>p. files w' p = files w p \<or> (p \<in> M \<and> files w' p = None)))"

definition tame :: "string set \<Rightarrow> ('a, 'e) act \<Rightarrow> bool" where
  "tame M m = (\<forall>w. \<exists>r w'. m w = Some (r, w') \<and> frame M w w' \<and> (\<forall>n. r \<noteq> Inl (SystemExit n)))"

text \<open>The marker files of \<open>PIDS\<close>.\<close>

definition markers :: "string set" where
  "markers = {''website.pid'', ''network.pid'', ''auth.pid''}"

text \<open>
  System calls fail with operating-system errors, not with \<open>SystemExit\<close>.
\<close>

definition os_errors_only :: "'e kernel \<Rightarrow> bool" where
  "os_errors_only k =
     ((\<forall>p sg e n. fst (sys_kill k p sg e) \<noteq> Some (SystemExit n)) \<and>
      (\<forall>pat e n. fst (sys_pgrep k pat e) \<noteq> Inl (SystemExit n)))"

text \<open>
  A required setting is absent: one of the keys \<open>main\<close> asks for is not in the env
  file it is read from, or the validator configuration \<open>node0.yaml\<close> is not in the
  configuration directory. The website settings come from \<open>website/.env.local\<close>, or
  from \<open>configs/local/.env.local\<close> when the former does not exist.
\<close>

definition website_source :: "'e world \<Rightarrow> string" where
  "website_source w =
     (if files w ''website/.env.local'' \<noteq> None then ''website/.env.local''
      else ''configs/local/.env.local'')"

definition config_missing :: "args \<Rightarrow> 'e world \<Rightarrow> bool" where
  "config_missing a w =
     (read_env_file w (website_source w) ''VITE_IDENTITY'' = None \<or>
      read_env_file w (website_source w) ''CONVEX_SELF_HOSTED_URL'' = None \<or>
      read_env_file w (website_source w) ''CONVEX_SELF_HOSTED_ADMIN_KEY'' = None \<or>
      read_env_file w ''docker/convex/.env'' ''CONVEX_SERVICE_TOKEN'' = None \<or>
      read_env_file w ''docker/convex/.env'' ''STRIPE_SECRET_KEY'' = None \<or>
      read_env_file w ''docker/convex/.env'' ''STRIPE_WEBHOOK_SECRET'' = None \<or>
      files w (config_dir a @ ''/node0.yaml'') = None)"

section \<open>A small machine to run the model on\<close>

text \<open>
  One instance of the operating system, used to evaluate the model on concrete inputs.
  A process is obedient (exits on the graceful request), stubborn (exits only on the
  forced kill) or foreign (owned by another user: signalling it is refused). The clock
  moves only while the script sleeps.
\<close>

datatype temper = Obedient | Stubborn | Foreign

record machine =
  now :: real
  procs :: "(int \<times> temper) list"
  pgrep_reply :: "(int \<times> string) option"
  next_pid :: int

definition reap :: "int \<Rightarrow> machine \<Rightarrow> machine" where
  "reap pid m = m\<lparr>procs := filter (\<lambda>(p, t). p \<noteq> pid) (procs m)\<rparr>"

definition sim_kill :: "int \<Rightarrow> signal \<Rightarrow> machine \<Rightarrow> error option \<times> machine" where
  "sim_kill pid sg m =
     (case map_of (procs m) pid of
        None \<Rightarrow> (Some ProcessLookupError, m)
      | Some Foreign \<Rightarrow> (Some PermissionError, m)
      | Some Obedient \<Rightarrow> (None, if sg = SIG0 then m else reap pid m)
      | Some Stubborn \<Rightarrow> (None, if sg = SIGKILL then reap pid m else m))"

definition sim :: "machine kernel" where
  "sim = \<lparr>
     sys_kill = sim_kill,
     sys_time = (\<lambda>m. (now m, m)),
     sys_sleep = (\<lambda>d m. m\<lparr>now := now m + d\<rparr>),
     sys_pgrep = (\<lambda>pat m. (case pgrep_reply m of None \<Rightarrow> Inl FileNotFoundError | Some r \<Rightarrow> Inr r, m)),
     sys_run = (\<lambda>cmd m. (None, m)),
     sys_popen = (\<lambda>cmd m. (Inr (next_pid m),
                   m\<lparr>procs := (next_pid m, Obedient) # procs m, next_pid := next_pid m + 1\<rparr>)),
     sys_terminate = (\<lambda>pid m. snd (sim_kill pid SIGTERM m)),
     sys_poll = (\<lambda>pid m. (if map_of (procs m) pid = None then Some 0 else None, m)),
     sys_forcekill = (\<lambda>pid m. snd (sim_kill pid SIGKILL m))
   \<rparr>"


definition boot :: "(int \<times> temper) list \<Rightarrow> (string \<times> string) list \<Rightarrow> machine world" where
  "boot ps fs = \<lparr>trace = [], files = map_of fs, stop_event = False,
                 env = \<lparr>now = 0, procs = ps, pgrep_reply = Some (1, []), next_pid = 100\<rparr>\<rparr>"

section \<open>What each system call leaves in the trace\<close>




lemma pid_exists_False:
  "pid_exists k p w = (Inr False, w') \<Longrightarrow>
     trace w' = trace w @ [Kill p SIG0 (Some ProcessLookupError)]"
  by (auto simp: pid_exists_def os_kill_def split: prod.splits option.splits error.splits)



lemma sent_append: "sent (xs @ ys) = sent xs @ sent ys"
  by (induction xs rule: sent.induct) auto

section \<open>Termination of a process that is not alive\<close>

text \<open>
  Claim C3. When the liveness probe finds no process, \<open>terminate_pid\<close> returns at once:
  its result is the state right after the probe, whose trace holds the probe and nothing
  else, so no signal is delivered, no clock is read and no sleep is made. And a probe
  that is refused for lack of permission makes \<open>pid_exists\<close> answer that the process
  is alive.
\<close>

theorem terminate_pid_not_alive:
  "(fst (pid_exists k p w) = Inr False \<longrightarrow>
      terminate_pid k p timeout w = Some (Inr (), snd (pid_exists k p w)) \<and>
      trace (snd (pid_exists k p w)) = trace w @ [Kill p SIG0 (Some ProcessLookupError)] \<and>
      sent (trace (snd (pid_exists k p w))) = sent (trace w)) \<and>
   (fst (sys_kill k p SIG0 (env w)) = Some PermissionError \<longrightarrow>
      fst (pid_exists k p w) = Inr True)"
proof (intro conjI impI)
  assume dead: "fst (pid_exists k p w) = Inr False"
  then obtain w1 where pe: "pid_exists k p w = (Inr False, w1)"
    by (cases "pid_exists k p w") simp
  show "terminate_pid k p timeout w = Some (Inr (), snd (pid_exists k p w))"
    using pe by (simp add: terminate_pid_def)
  show tr: "trace (snd (pid_exists k p w)) = trace w @ [Kill p SIG0 (Some ProcessLookupError)]"
    using pid_exists_False [OF pe] pe by simp
  show "sent (trace (snd (pid_exists k p w))) = sent (trace w)"
    unfolding tr by (simp add: sent_append)
next
  assume "fst (sys_kill k p SIG0 (env w)) = Some PermissionError"
  then show "fst (pid_exists k p w) = Inr True"
    by (auto simp: pid_exists_def os_kill_def split: prod.splits)
qed

theorem terminate_pid_not_alive_witness:
  "fst (pid_exists sim 7 (boot [] [])) = Inr False \<and>
   terminate_pid sim 7 2 (boot [] []) = Some (Inr (), snd (pid_exists sim 7 (boot [] []))) \<and>
   trace (snd (pid_exists sim 7 (boot [] []))) = [Kill 7 SIG0 (Some ProcessLookupError)] \<and>
   fst (sys_kill sim 8 SIG0 (env (boot [(8, Foreign)] []))) = Some PermissionError \<and>
   fst (pid_exists sim 8 (boot [(8, Foreign)] [])) = Inr True"
proof -
  have dead: "fst (pid_exists sim 7 (boot [] [])) = Inr False"
    by (simp add: pid_exists_def os_kill_def sim_def sim_kill_def boot_def)
  have denied: "fst (sys_kill sim 8 SIG0 (env (boot [(8, Foreign)] []))) = Some PermissionError"
    by (simp add: sim_def sim_kill_def boot_def)
  have t0: "trace (boot [] [] :: machine world) = []"
    by (simp add: boot_def)
  from dead denied t0
    terminate_pid_not_alive [of sim 7 "boot [] []" 2]
    terminate_pid_not_alive [of sim 8 "boot [(8, Foreign)] []" 2]
  show ?thesis by simp
qed




section \<open>The trace of an escalation\<close>


section \<open>Decimal text of an identifier\<close>












section \<open>The registry round trip\<close>



section \<open>Marker files\<close>

text \<open>
  Claim C10. A marker file holding the text \<open>0\<close> parses to the integer 0, which the
  test \<open>if pid\<close> treats like no identifier: \<open>kill_pidfile\<close> returns normally in the
  state it was called in with the marker file removed, so nothing was probed and no
  signal was delivered.
\<close>

theorem kill_pidfile_zero:
  "files w path = Some ''0'' \<Longrightarrow>
     py_int (strip ''0'') = Some 0 \<and>
     kill_pidfile k path w = Some (Inr (), w\<lparr>files := (files w)(path := None)\<rparr>)"
  by (simp add: kill_pidfile_def and_then_def unlink_def py_int_def strip_def isspace_def
      parse_nat_def is_digit_def digit_val_def)

theorem kill_pidfile_zero_witness:
  "files (boot [] [(''auth.pid'', ''0'')]) ''auth.pid'' = Some ''0'' \<and>
   py_int (strip ''0'') = Some 0 \<and>
   kill_pidfile sim ''auth.pid'' (boot [] [(''auth.pid'', ''0'')]) =
     Some (Inr (), (boot [] [(''auth.pid'', ''0'')])
       \<lparr>files := (files (boot [] [(''auth.pid'', ''0'')]))(''auth.pid'' := None)\<rparr>)"
proof -
  have h: "files (boot [] [(''auth.pid'', ''0'')] :: machine world) ''auth.pid'' = Some ''0''"
    by (simp add: boot_def)
  from h kill_pidfile_zero [OF h, of sim] show ?thesis by simp
qed

text \<open>
  Claim C4. The marker file is removed only on the path where \<open>terminate_pid\<close> returns
  normally. Here the marker file \<open>network.pid\<close> holds \<open>1\<close>, the identifier of a
  process of another user: the probe is refused, so the process counts as alive, the
  graceful request is refused as well, the \<open>PermissionError\<close> leaves \<open>kill_pidfile\<close>,
  and the marker file is still there.
\<close>

theorem kill_pidfile_keeps_marker_on_error:
  "map_option (\<lambda>(r, w). (r, files w ''network.pid'', trace w))
     (kill_pidfile sim ''network.pid'' (boot [(1, Foreign)] [(''network.pid'', ''1'')])) =
   Some (Inl PermissionError, Some ''1'',
         [Kill 1 SIG0 (Some PermissionError), Kill 1 SIGTERM (Some PermissionError)])"
  by (simp add: kill_pidfile_def and_then_def unlink_def py_int_def strip_def isspace_def
      parse_nat_def is_digit_def digit_val_def
      terminate_pid_def pid_exists_def os_kill_def sim_def sim_kill_def boot_def)

section \<open>The pattern sweep\<close>

text \<open>
  Claim C1. On a machine where \<open>pgrep\<close> cannot be started, \<open>subprocess.run\<close> raises
  \<open>FileNotFoundError\<close>; \<open>kill_by_pattern\<close> has no handler for it, so the exception
  leaves the function instead of the sweep being skipped.
\<close>

theorem kill_by_pattern_without_pgrep:
  "map_option (\<lambda>(r, w). (r, trace w))
     (kill_by_pattern sim ''vite''
        ((boot [] [])\<lparr>env := (env (boot [] []))\<lparr>pgrep_reply := None\<rparr>\<rparr>)) =
   Some (Inl FileNotFoundError, [Pgrep ''vite''])"
  by (simp add: kill_by_pattern_def run_pgrep_def sim_def boot_def)

text \<open>When \<open>pgrep\<close> runs and ends with a non-zero code, the sweep is skipped silently.\<close>

lemma kill_by_pattern_listing_failed:
  "sys_pgrep k pattern (env w) = (Inr (rc, out), e') \<Longrightarrow> rc \<noteq> 0 \<Longrightarrow>
     kill_by_pattern k pattern w = Some (Inr (), w\<lparr>trace := trace w @ [Pgrep pattern], env := e'\<rparr>)"
  by (simp add: kill_by_pattern_def run_pgrep_def)

section \<open>The shutdown handler\<close>

lemma terminate_all_effect:
  "trace (terminate_all k ps w) = trace w @ map Terminate ps \<and>
   stop_event (terminate_all k ps w) = stop_event w"
  by (induction ps arbitrary: w) (simp_all add: proc_terminate_def)

lemma kill_running_effect:
  "\<exists>evs. trace (kill_running k ps w) = trace w @ evs \<and> sweep ps evs \<and>
         stop_event (kill_running k ps w) = stop_event w"
proof (induction ps arbitrary: w)
  case Nil
  then show ?case by simp
next
  case (Cons p ps)
  obtain r w1 where pp: "proc_poll k p w = (r, w1)" by force
  then have t1: "trace w1 = trace w @ [Poll p r]" and s1: "stop_event w1 = stop_event w"
    by (auto simp: proc_poll_def split: prod.splits)
  show ?case
  proof (cases r)
    case None
    from Cons [of "proc_kill k p w1"] obtain evs where
      evs: "trace (kill_running k ps (proc_kill k p w1)) = trace (proc_kill k p w1) @ evs"
        "sweep ps evs"
        "stop_event (kill_running k ps (proc_kill k p w1)) = stop_event (proc_kill k p w1)"
      by blast
    have "trace (kill_running k (p # ps) w) = trace w @ (Poll p None # ForceKill p # evs)"
      using pp None evs(1) t1 by (simp add: proc_kill_def)
    moreover have "sweep (p # ps) (Poll p None # ForceKill p # evs)" using evs(2) by simp
    moreover have "stop_event (kill_running k (p # ps) w) = stop_event w"
      using pp None evs(3) s1 by (simp add: proc_kill_def)
    ultimately show ?thesis by blast
  next
    case (Some rc)
    from Cons [of w1] obtain evs where
      evs: "trace (kill_running k ps w1) = trace w1 @ evs" "sweep ps evs"
        "stop_event (kill_running k ps w1) = stop_event w1"
      by blast
    have "trace (kill_running k (p # ps) w) = trace w @ (Poll p (Some rc) # evs)"
      using pp Some evs(1) t1 by simp
    moreover have "sweep (p # ps) (Poll p (Some rc) # evs)" using evs(2) by simp
    moreover have "stop_event (kill_running k (p # ps) w) = stop_event w"
      using pp Some evs(3) s1 by simp
    ultimately show ?thesis by blast
  qed
qed

text \<open>
  Claim C6, as the code has it. Every run of \<open>handle_signal\<close>, the first or a later
  one, leaves the stop flag set and adds to the trace, in this order: a graceful-stop
  request to every process of the list, one sleep of one second, and then a poll of every
  process in turn, with a forced kill right after a poll exactly when that poll reported
  the process still running. A later trigger runs the same sequence again.
\<close>

theorem handle_signal_sequence:
  "stop_event (handle_signal k ps w) \<and>
   (\<exists>evs. trace (handle_signal k ps w) = trace w @ map Terminate ps @ Sleep 1 # evs \<and> sweep ps evs)"
proof -
  let ?w1 = "terminate_all k ps (w\<lparr>stop_event := True\<rparr>)"
  let ?w2 = "time_sleep k 1 ?w1"
  have t2: "trace ?w2 = trace w @ map Terminate ps @ [Sleep 1]" and s2: "stop_event ?w2"
    using terminate_all_effect [of k ps "w\<lparr>stop_event := True\<rparr>"]
    by (simp_all add: time_sleep_def)
  from kill_running_effect [of k ps ?w2] obtain evs where
    "trace (kill_running k ps ?w2) = trace ?w2 @ evs" "sweep ps evs"
    "stop_event (kill_running k ps ?w2) = stop_event ?w2"
    by blast
  with t2 s2 show ?thesis by (auto simp: handle_signal_def)
qed

theorem handle_signal_sequence_witness:
  "stop_event (handle_signal sim [7, 8] (boot [(7, Stubborn), (8, Obedient)] [])) \<and>
   trace (handle_signal sim [7, 8] (boot [(7, Stubborn), (8, Obedient)] [])) =
     [Terminate 7, Terminate 8, Sleep 1, Poll 7 None, ForceKill 7, Poll 8 (Some 0)] \<and>
   sweep [7, 8] [Poll 7 None, ForceKill 7, Poll 8 (Some 0)]"
proof -
  have "trace (handle_signal sim [7, 8] (boot [(7, Stubborn), (8, Obedient)] [])) =
     [Terminate 7, Terminate 8, Sleep 1, Poll 7 None, ForceKill 7, Poll 8 (Some 0)]"
    by (simp add: handle_signal_def proc_terminate_def proc_poll_def proc_kill_def time_sleep_def
        sim_def sim_kill_def reap_def boot_def)
  with handle_signal_sequence [of sim "[7, 8]" "boot [(7, Stubborn), (8, Obedient)] []"]
  show ?thesis by auto
qed

text \<open>
  The claim as stated says that a second trigger does nothing beyond setting the flag
  again. It does more: after a first trigger has force-killed the stubborn process 7, a
  second trigger calls \<open>terminate()\<close> again, sleeps another second and polls again.
\<close>

theorem handle_signal_second_trigger:
  "trace (handle_signal sim [7] (handle_signal sim [7] (boot [(7, Stubborn)] []))) =
     trace (handle_signal sim [7] (boot [(7, Stubborn)] [])) @
       [Terminate 7, Sleep 1, Poll 7 (Some 0)] \<and>
   handle_signal sim [7] (handle_signal sim [7] (boot [(7, Stubborn)] [])) \<noteq>
     (handle_signal sim [7] (boot [(7, Stubborn)] []))\<lparr>stop_event := True\<rparr>"
proof -
  have tr: "trace (handle_signal sim [7] (handle_signal sim [7] (boot [(7, Stubborn)] []))) =
     trace (handle_signal sim [7] (boot [(7, Stubborn)] [])) @
       [Terminate 7, Sleep 1, Poll 7 (Some 0)]"
    by (simp add: handle_signal_def proc_terminate_def proc_poll_def proc_kill_def time_sleep_def
        sim_def sim_kill_def reap_def boot_def)
  then have "trace (handle_signal sim [7] (handle_signal sim [7] (boot [(7, Stubborn)] []))) \<noteq>
     trace ((handle_signal sim [7] (boot [(7, Stubborn)] []))\<lparr>stop_event := True\<rparr>)"
    by simp
  then have "handle_signal sim [7] (handle_signal sim [7] (boot [(7, Stubborn)] [])) \<noteq>
     (handle_signal sim [7] (boot [(7, Stubborn)] []))\<lparr>stop_event := True\<rparr>"
    by metis
  with tr show ?thesis by simp
qed

section \<open>The log tailer\<close>

text \<open>
  Claim C5. A line that reaches the log in two pieces is not emitted as one line. The
  log holds \<open>old\<close> when the tailer attaches, so \<open>old\<close> is never emitted. Then the
  writer appends \<open>hel\<close>, the tailer reads, and the writer appends the rest of the line,
  \<open>lo\<close> and the newline. \<open>readline\<close> at the end of the file returns the piece that is
  there, so the tailer writes the prefix and \<open>hel\<close>, and later the prefix again and
  \<open>lo\<close>: the line \<open>hello\<close> is split over two writes.
\<close>

theorem tail_file_splits_line:
  "written (snd (tail_file ''network''
     [Append (''old'' @ [CHR 0x0A]), Step, Step, Step, Step, Append ''hel'', Step, Step,
      Append (''lo'' @ [CHR 0x0A]), Step] \<lparr>logfile = None, stop_set = False\<rparr>)) =
   [''[network] hel'', ''[network] lo'' @ [CHR 0x0A]]"
  by (simp add: tail_file_def tail_step_def)

lemma run_moves_append: "run_moves p (a @ b) st = run_moves p b (run_moves p a st)"
  by (induction a arbitrary: st) simp_all

lemma tail_step_stopped:
  "stop_set sh \<Longrightarrow>
     steps_left (ctl (tail_step p sh t)) \<le> steps_left (ctl t) - 1 \<and>
     length (written (tail_step p sh t)) + acts_left (ctl (tail_step p sh t))
       \<le> length (written t) + acts_left (ctl t) \<and>
     slept (tail_step p sh t) + (2 / 10) * real (acts_left (ctl (tail_step p sh t)))
       \<le> slept t + (2 / 10) * real (acts_left (ctl t))"
  by (cases "ctl t") (auto simp: tail_step_def Let_def split: option.splits)

lemma make_move_stopped:
  assumes "stop_set sh" and "make_move p m (sh, t) = (sh', t')"
  shows "stop_set sh' \<and>
     steps_left (ctl t') \<le> steps_left (ctl t) - (if m = Step then 1 else 0) \<and>
     length (written t') + acts_left (ctl t') \<le> length (written t) + acts_left (ctl t) \<and>
     slept t' + (2 / 10) * real (acts_left (ctl t')) \<le> slept t + (2 / 10) * real (acts_left (ctl t))"
proof (cases m)
  case Step
  with assms have "sh' = sh" "t' = tail_step p sh t" by auto
  with tail_step_stopped [OF assms(1), of p t] Step assms(1) show ?thesis by simp
qed (use assms in auto)

lemma run_moves_stopped:
  "stop_set sh \<Longrightarrow> run_moves p ms (sh, t) = (sh', t') \<Longrightarrow>
     steps_left (ctl t') \<le> steps_left (ctl t) - count_list ms Step \<and>
     length (written t') + acts_left (ctl t') \<le> length (written t) + acts_left (ctl t) \<and>
     slept t' + (2 / 10) * real (acts_left (ctl t')) \<le> slept t + (2 / 10) * real (acts_left (ctl t))"
proof (induction ms arbitrary: sh t)
  case Nil
  then show ?case by simp
next
  case (Cons m ms)
  obtain sh1 t1 where mm: "make_move p m (sh, t) = (sh1, t1)" by force
  from make_move_stopped [OF Cons.prems(1) mm] have
    s1: "stop_set sh1"
    and a: "steps_left (ctl t1) \<le> steps_left (ctl t) - (if m = Step then 1 else 0)"
    and b: "length (written t1) + acts_left (ctl t1) \<le> length (written t) + acts_left (ctl t)"
    and c: "slept t1 + (2 / 10) * real (acts_left (ctl t1)) \<le> slept t + (2 / 10) * real (acts_left (ctl t))"
    by simp_all
  from Cons.prems(2) mm have "run_moves p ms (sh1, t1) = (sh', t')" by simp
  from Cons.IH [OF s1 this] a b c show ?case by (auto split: if_splits)
qed

lemma attached_move: "attached st \<Longrightarrow> attached (make_move p m st)"
proof (cases st)
  case (Pair sh t)
  assume "attached st"
  with Pair show ?thesis
    by (cases m; cases "ctl t")
       (auto simp: tail_step_def Let_def split: option.splits place.splits)
qed

lemma attached_run: "attached st \<Longrightarrow> attached (run_moves p ms st)"
  by (induction ms arbitrary: st) (simp_all add: attached_move)

lemma attached_tail_file: "attached (tail_file p ms sh)"
  unfolding tail_file_def by (rule attached_run) simp

text \<open>
  Claim C8. Take any schedule of the tailer and of the processes around it, and set the
  stop flag at any point of it. From that point on the tailer writes at most one more
  line and sleeps at most one more polling interval of 0.2 seconds (the loop body it may
  already be in), and after at most three more of its own steps it has left
  \<open>tail_file\<close>: each loop tests the flag once per cycle.
\<close>

theorem tailer_stops_within_one_cycle:
  assumes before: "tail_file p ms1 sh0 = (sh1, t1)"
    and after: "tail_file p (ms1 @ SetStop # ms2) sh0 = (sh2, t2)"
  shows "length (written t2) \<le> length (written t1) + 1 \<and>
         slept t2 \<le> slept t1 + 2 / 10 \<and>
         (3 \<le> count_list ms2 Step \<longrightarrow> ctl t2 = Finished)"
proof -
  from before after have run: "run_moves p ms2 (sh1\<lparr>stop_set := True\<rparr>, t1) = (sh2, t2)"
    by (simp add: tail_file_def run_moves_append)
  have "stop_set (sh1\<lparr>stop_set := True\<rparr>)" by simp
  from run_moves_stopped [OF this run] have
    a: "steps_left (ctl t2) \<le> steps_left (ctl t1) - count_list ms2 Step"
    and b: "length (written t2) + acts_left (ctl t2) \<le> length (written t1) + acts_left (ctl t1)"
    and c: "slept t2 + (2 / 10) * real (acts_left (ctl t2)) \<le> slept t1 + (2 / 10) * real (acts_left (ctl t1))"
    by simp_all
  have le1: "acts_left (ctl t1) \<le> 1" by (cases "ctl t1") simp_all
  have le3: "steps_left (ctl t1) \<le> 3" by (cases "ctl t1") simp_all
  from b le1 have w: "length (written t2) \<le> length (written t1) + 1" by linarith
  have "(2 / 10) * real (acts_left (ctl t1)) \<le> 2 / 10" using le1 by simp
  moreover have "0 \<le> (2 / 10) * real (acts_left (ctl t2))" by simp
  ultimately have s: "slept t2 \<le> slept t1 + 2 / 10" using c by linarith
  have f: "ctl t2 = Finished" if "3 \<le> count_list ms2 Step"
  proof -
    from that a le3 have z: "steps_left (ctl t2) = 0" by linarith
    from attached_tail_file [of p "ms1 @ SetStop # ms2" sh0] after
    have "attached (sh2, t2)" by simp
    with z show ?thesis by (cases "ctl t2") simp_all
  qed
  from w s f show ?thesis by blast
qed

theorem tailer_stops_within_one_cycle_witness:
  "\<exists>sh1 t1 sh2 t2.
     tail_file ''auth'' [Append ''a'', Step, Step, Step, Step, Append ''x''] \<lparr>logfile = None, stop_set = False\<rparr>
       = (sh1, t1) \<and>
     tail_file ''auth'' ([Append ''a'', Step, Step, Step, Step, Append ''x''] @ SetStop # [Step, Step, Step])
       \<lparr>logfile = None, stop_set = False\<rparr> = (sh2, t2) \<and>
     written t1 = [] \<and> written t2 = [''[auth] x''] \<and>
     length (written t2) \<le> length (written t1) + 1 \<and> slept t2 \<le> slept t1 + 2 / 10 \<and>
     (3::nat) \<le> count_list [Step, Step, Step] Step \<and> ctl t2 = Finished"
proof -
  obtain sh1 t1 where b: "tail_file ''auth'' [Append ''a'', Step, Step, Step, Step, Append ''x'']
      \<lparr>logfile = None, stop_set = False\<rparr> = (sh1, t1)" by force
  obtain sh2 t2 where a: "tail_file ''auth''
      ([Append ''a'', Step, Step, Step, Step, Append ''x''] @ SetStop # [Step, Step, Step])
      \<lparr>logfile = None, stop_set = False\<rparr> = (sh2, t2)" by force
  have c: "(3::nat) \<le> count_list [Step, Step, Step] Step" by simp
  have w1: "written t1 = []" using b by (auto simp: tail_file_def tail_step_def)
  have w2: "written t2 = [''[auth] x'']" using a by (auto simp: tail_file_def tail_step_def)
  from tailer_stops_within_one_cycle [OF b a] c w1 w2 a b show ?thesis by blast
qed

section \<open>Cleanup returns and starts nothing\<close>

lemma spawned_append: "spawned (xs @ ys) = spawned xs @ spawned ys"
  by (induction xs rule: spawned.induct) auto

lemma frame_refl: "frame M w w"
  by (simp add: frame_def)

lemma frame_trans: "frame M w w1 \<Longrightarrow> frame M w1 w2 \<Longrightarrow> frame M w w2"
  unfolding frame_def by metis

lemma frame_mono: "frame M w w' \<Longrightarrow> M \<subseteq> N \<Longrightarrow> frame N w w'"
  unfolding frame_def by blast

lemma os_kill_frame: "os_kill k p sg w = (r, w') \<Longrightarrow> frame M w w'"
  by (auto simp: os_kill_def frame_def spawned_append split: prod.splits)

lemma os_kill_env: "os_kill k p sg w = (r, w') \<Longrightarrow>
    r = fst (sys_kill k p sg (env w)) \<and> env w' = snd (sys_kill k p sg (env w))"
  by (auto simp: os_kill_def split: prod.splits)

lemma time_time_frame: "time_time k w = (t, w') \<Longrightarrow> frame M w w'"
  by (auto simp: time_time_def frame_def spawned_append split: prod.splits)

lemma time_time_env: "time_time k w = (t, w') \<Longrightarrow>
    t = fst (sys_time k (env w)) \<and> env w' = snd (sys_time k (env w))"
  by (auto simp: time_time_def split: prod.splits)

lemma time_sleep_frame: "frame M w (time_sleep k d w)"
  by (simp add: time_sleep_def frame_def spawned_append)

lemma pid_exists_frame: "pid_exists k p w = (r, w') \<Longrightarrow> frame M w w'"
proof -
  assume a: "pid_exists k p w = (r, w')"
  obtain r0 w0 where ok: "os_kill k p SIG0 w = (r0, w0)" by force
  with a have "w' = w0"
    by (auto simp: pid_exists_def split: option.splits error.splits)
  with os_kill_frame [OF ok] show ?thesis by simp
qed

lemma pid_exists_env: "pid_exists k p w = (r, w') \<Longrightarrow> env w' = snd (sys_kill k p SIG0 (env w))"
  by (auto simp: pid_exists_def os_kill_def split: prod.splits option.splits error.splits)

lemma pid_exists_error:
  "os_errors_only k \<Longrightarrow> pid_exists k p w = (r, w') \<Longrightarrow> r \<noteq> Inl (SystemExit n)"
proof
  assume oe: "os_errors_only k" and a: "pid_exists k p w = (r, w')" and r: "r = Inl (SystemExit n)"
  from a r have "fst (sys_kill k p SIG0 (env w)) = Some (SystemExit n)"
    by (auto simp: pid_exists_def os_kill_def split: prod.splits option.splits error.splits)
  with oe show False by (simp add: os_errors_only_def)
qed

lemma os_kill_error:
  "os_errors_only k \<Longrightarrow> os_kill k p sg w = (r, w') \<Longrightarrow> r \<noteq> Some (SystemExit n)"
  using os_kill_env [of k p sg w r w'] by (auto simp: os_errors_only_def)

lemma poll_until_returns:
  assumes cr: "clock_runs k c" and oe: "os_errors_only k"
  shows "\<exists>r w'. poll_until k pid start timeout w = Some (r, w') \<and> frame M w w' \<and>
           (\<forall>n. r \<noteq> Inl (SystemExit n))"
proof (induction "nat \<lceil>(start + timeout - c (env w)) * 10\<rceil>" arbitrary: w rule: less_induct)
  case less
  obtain t w1 where tt: "time_time k w = (t, w1)" by force
  from time_time_env [OF tt] cr have t: "t = c (env w)" and c1: "c (env w) \<le> c (env w1)"
    by (auto simp: clock_runs_def)
  note f1 = time_time_frame [OF tt, of M]
  show ?case
  proof (cases "t - start < timeout")
    case False
    with tt have "poll_until k pid start timeout w = Some (Inr TimedOut, w1)"
      by (subst poll_until.simps) simp
    with f1 show ?thesis by simp
  next
    case True
    obtain r w2 where pe: "pid_exists k pid w1 = (r, w2)" by force
    note f2 = frame_trans [OF f1 pid_exists_frame [OF pe, of M]]
    from pid_exists_env [OF pe] cr have c2: "c (env w1) \<le> c (env w2)"
      by (auto simp: clock_runs_def)
    show ?thesis
    proof (cases r)
      case (Inl e)
      with tt True pe have "poll_until k pid start timeout w = Some (Inl e, w2)"
        by (subst poll_until.simps) simp
      with f2 pid_exists_error [OF oe pe] Inl show ?thesis by auto
    next
      case (Inr alive)
      show ?thesis
      proof (cases alive)
        case False
        with Inr tt True pe have "poll_until k pid start timeout w = Some (Inr Returned, w2)"
          by (subst poll_until.simps) simp
        with f2 show ?thesis by simp
      next
        case Tr: True
        let ?w3 = "time_sleep k (1 / 10) w2"
        have c3: "c (env w2) + 1 / 10 \<le> c (env ?w3)"
          using cr by (simp add: clock_runs_def time_sleep_def)
        have pos: "0 < (start + timeout - c (env w)) * 10" using True t by simp
        have "(start + timeout - c (env ?w3)) * 10 \<le> (start + timeout - c (env w)) * 10 - 1"
          using c1 c2 c3 by simp
        then have "\<lceil>(start + timeout - c (env ?w3)) * 10\<rceil> \<le> \<lceil>(start + timeout - c (env w)) * 10\<rceil> - 1"
          by (metis ceiling_mono ceiling_diff_one)
        moreover have "0 < \<lceil>(start + timeout - c (env w)) * 10\<rceil>" using pos by simp
        ultimately have "nat \<lceil>(start + timeout - c (env ?w3)) * 10\<rceil> < nat \<lceil>(start + timeout - c (env w)) * 10\<rceil>"
          by linarith
        from less [OF this] obtain r' w' where
          rec: "poll_until k pid start timeout ?w3 = Some (r', w')" "frame M ?w3 w'"
            "\<forall>n. r' \<noteq> Inl (SystemExit n)" by blast
        from Inr Tr tt True pe rec(1) have "poll_until k pid start timeout w = Some (r', w')"
          by (subst poll_until.simps) simp
        moreover have "frame M w w'"
          using frame_trans [OF frame_trans [OF f2 time_sleep_frame] rec(2)] .
        ultimately show ?thesis using rec(3) by blast
      qed
    qed
  qed
qed

lemma terminate_pid_tame:
  assumes cr: "clock_runs k c" and oe: "os_errors_only k"
  shows "tame M (terminate_pid k pid timeout)"
  unfolding tame_def
proof
  fix w
  obtain r1 w1 where pe: "pid_exists k pid w = (r1, w1)" by force
  note f1 = pid_exists_frame [OF pe, of M]
  show "\<exists>r w'. terminate_pid k pid timeout w = Some (r, w') \<and> frame M w w' \<and>
          (\<forall>n. r \<noteq> Inl (SystemExit n))"
  proof (cases r1)
    case (Inl e)
    with pe have "terminate_pid k pid timeout w = Some (Inl e, w1)"
      by (simp add: terminate_pid_def)
    with f1 pid_exists_error [OF oe pe] Inl show ?thesis by auto
  next
    case (Inr alive)
    show ?thesis
    proof (cases alive)
      case False
      with Inr pe have "terminate_pid k pid timeout w = Some (Inr (), w1)"
        by (simp add: terminate_pid_def)
      with f1 show ?thesis by simp
    next
      case True
      obtain r2 w2 where tk: "os_kill k pid SIGTERM w1 = (r2, w2)" by force
      note f2 = frame_trans [OF f1 os_kill_frame [OF tk, of M]]
      show ?thesis
      proof (cases r2)
        case (Some e)
        with Inr True pe tk have
          "terminate_pid k pid timeout w = Some (if e = ProcessLookupError then Inr () else Inl e, w2)"
          by (simp add: terminate_pid_def split: error.splits)
        with f2 os_kill_error [OF oe tk] Some show ?thesis by auto
      next
        case None
        obtain st w3 where tt: "time_time k w2 = (st, w3)" by force
        note f3 = frame_trans [OF f2 time_time_frame [OF tt, of M]]
        from poll_until_returns [OF cr oe, of pid st timeout w3 M] obtain r4 w4 where
          pu: "poll_until k pid st timeout w3 = Some (r4, w4)" "frame M w3 w4"
            "\<forall>n. r4 \<noteq> Inl (SystemExit n)" by blast
        note f4 = frame_trans [OF f3 pu(2)]
        show ?thesis
        proof (cases r4)
          case (Inl e)
          with Inr True pe tk None tt pu(1) have "terminate_pid k pid timeout w = Some (Inl e, w4)"
            by (simp add: terminate_pid_def)
          with f4 pu(3) Inl show ?thesis by auto
        next
          case r4: (Inr ex)
          show ?thesis
          proof (cases ex)
            case Returned
            with r4 Inr True pe tk None tt pu(1) have "terminate_pid k pid timeout w = Some (Inr (), w4)"
              by (simp add: terminate_pid_def)
            with f4 show ?thesis by simp
          next
            case TimedOut
            obtain r5 w5 where kk: "os_kill k pid SIGKILL w4 = (r5, w5)" by force
            note f5 = frame_trans [OF f4 os_kill_frame [OF kk, of M]]
            from TimedOut r4 Inr True pe tk None tt pu(1) kk have
              "terminate_pid k pid timeout w =
                 Some (case r5 of None \<Rightarrow> Inr () | Some e \<Rightarrow> if e = ProcessLookupError then Inr () else Inl e, w5)"
              by (simp add: terminate_pid_def split: option.splits error.splits)
            with f5 os_kill_error [OF oe kk] show ?thesis
              by (auto split: option.splits)
          qed
        qed
      qed
    qed
  qed
qed

lemma tame_return: "tame M (\<lambda>w. Some (Inr x, w))"
  by (simp add: tame_def frame_refl)

lemma tame_and_then:
  assumes "tame M m" and "\<And>x. tame M (f x)"
  shows "tame M (and_then m f)"
  unfolding tame_def
proof
  fix w
  from assms(1) obtain r w1 where m: "m w = Some (r, w1)" "frame M w w1" "\<forall>n. r \<noteq> Inl (SystemExit n)"
    unfolding tame_def by blast
  show "\<exists>r w'. and_then m f w = Some (r, w') \<and> frame M w w' \<and> (\<forall>n. r \<noteq> Inl (SystemExit n))"
  proof (cases r)
    case (Inl e)
    with m show ?thesis by (auto simp: and_then_def)
  next
    case (Inr x)
    from assms(2) [of x] obtain r' w' where
      f: "f x w1 = Some (r', w')" "frame M w1 w'" "\<forall>n. r' \<noteq> Inl (SystemExit n)"
      unfolding tame_def by blast
    with m Inr frame_trans [OF m(2) f(2)] show ?thesis by (auto simp: and_then_def)
  qed
qed

lemma tame_for_each:
  assumes "\<And>x. tame M (body x)"
  shows "tame M (for_each body xs)"
proof (induction xs)
  case Nil
  have "for_each body [] = (\<lambda>w. Some (Inr (), w))" by (rule ext) simp
  then show ?case by (simp add: tame_return)
next
  case (Cons x xs)
  have "for_each body (x # xs) = and_then (body x) (\<lambda>u. for_each body xs)" by (rule ext) simp
  with tame_and_then [OF assms [of x], of "\<lambda>u. for_each body xs"] Cons show ?case by simp
qed

lemma tame_mono: "tame M m \<Longrightarrow> M \<subseteq> N \<Longrightarrow> tame N m"
  unfolding tame_def by (meson frame_mono)

lemma unlink_tame:
  "tame {path} (\<lambda>w1. case unlink path w1 of
                 (None, w2) \<Rightarrow> Some (Inr (), w2)
               | (Some FileNotFoundError, w2) \<Rightarrow> Some (Inr (), w2)
               | (Some e, w2) \<Rightarrow> Some (Inl e, w2))"
  by (auto simp: tame_def unlink_def frame_def)

lemma kill_pidfile_tame:
  assumes cr: "clock_runs k c" and oe: "os_errors_only k"
  shows "tame {path} (kill_pidfile k path)"
  unfolding tame_def
proof
  fix w
  show "\<exists>r w'. kill_pidfile k path w = Some (r, w') \<and> frame {path} w w' \<and>
          (\<forall>n. r \<noteq> Inl (SystemExit n))"
  proof (cases "files w path")
    case None
    then show ?thesis by (simp add: kill_pidfile_def frame_refl)
  next
    case (Some content)
    let ?first = "case py_int (strip content) of
               None \<Rightarrow> (\<lambda>w. Some (Inr (), w))
             | Some pid \<Rightarrow> if pid \<noteq> 0 then terminate_pid k pid 2 else (\<lambda>w. Some (Inr (), w))"
    let ?second = "\<lambda>(u::unit) w1. case unlink path w1 of
                 (None, w2) \<Rightarrow> Some (Inr (), w2)
               | (Some FileNotFoundError, w2) \<Rightarrow> Some (Inr (), w2)
               | (Some e, w2) \<Rightarrow> Some (Inl e, w2)"
    have "tame {path} ?first"
      using terminate_pid_tame [OF cr oe, of "{path}"] tame_return [of "{path}" "()"]
      by (auto split: option.splits)
    from tame_and_then [OF this, of ?second] unlink_tame [of path]
    have "tame {path} (and_then ?first ?second)" by simp
    moreover have "kill_pidfile k path w = and_then ?first ?second w"
      using Some by (simp add: kill_pidfile_def)
    ultimately show ?thesis by (simp add: tame_def)
  qed
qed

lemma kill_token_tame:
  assumes cr: "clock_runs k c" and oe: "os_errors_only k"
  shows "tame M (kill_token k token)"
proof -
  have "kill_token k token =
     (if \<not> isdigit token then (\<lambda>w. Some (Inr (), w))
      else (case py_int token of None \<Rightarrow> (\<lambda>w. Some (Inl ValueError, w))
            | Some pid \<Rightarrow> terminate_pid k pid 2))"
    by (rule ext) (simp add: kill_token_def split: option.splits)
  moreover have "tame M (\<lambda>w. Some (Inl ValueError, w))" by (simp add: tame_def frame_refl)
  ultimately show ?thesis
    using terminate_pid_tame [OF cr oe, of M] tame_return [of M "()"]
    by (auto split: option.splits)
qed

lemma kill_by_pattern_tame:
  assumes cr: "clock_runs k c" and oe: "os_errors_only k"
  shows "tame M (kill_by_pattern k pattern)"
  unfolding tame_def
proof
  fix w
  obtain r w1 where rp: "run_pgrep k pattern w = (r, w1)" by force
  then have f1: "frame M w w1" and r: "r = fst (sys_pgrep k pattern (env w))"
    by (auto simp: run_pgrep_def frame_def spawned_append split: prod.splits)
  show "\<exists>r w'. kill_by_pattern k pattern w = Some (r, w') \<and> frame M w w' \<and>
          (\<forall>n. r \<noteq> Inl (SystemExit n))"
  proof (cases r)
    case (Inl e)
    with rp have "kill_by_pattern k pattern w = Some (Inl e, w1)"
      by (simp add: kill_by_pattern_def)
    moreover from Inl r oe have "e \<noteq> SystemExit n" for n
      by (auto simp: os_errors_only_def)
    ultimately show ?thesis using f1 by auto
  next
    case (Inr reply)
    obtain returncode out where reply: "reply = (returncode, out)" by (cases reply)
    show ?thesis
    proof (cases "returncode \<noteq> 0")
      case True
      with rp Inr reply have "kill_by_pattern k pattern w = Some (Inr (), w1)"
        by (simp add: kill_by_pattern_def)
      with f1 show ?thesis by simp
    next
      case False
      with rp Inr reply have
        eq: "kill_by_pattern k pattern w = for_each (kill_token k) (split_ws out) w1"
        by (simp add: kill_by_pattern_def)
      from tame_for_each [of M "kill_token k" "split_ws out"] kill_token_tame [OF cr oe, of M]
      obtain r' w' where "for_each (kill_token k) (split_ws out) w1 = Some (r', w')"
        "frame M w1 w'" "\<forall>n. r' \<noteq> Inl (SystemExit n)"
        unfolding tame_def by blast
      with eq frame_trans [OF f1] show ?thesis by auto
    qed
  qed
qed

lemma cleanup_tame:
  assumes cr: "clock_runs k c" and oe: "os_errors_only k"
  shows "tame markers
     (and_then (for_each (\<lambda>key w. case PIDS key of
                                    None \<Rightarrow> Some (Inl KeyError, w)
                                  | Some path \<Rightarrow> kill_pidfile k path w)
                 [''website'', ''network'', ''auth''])
       (\<lambda>u. for_each (kill_by_pattern k)
                 [''nullspace-simulator'', ''nullspace-node'', ''start-local-network.sh'',
                  ''tsx src/server.ts'', ''node .*vite'', ''vite'']))"
proof (rule tame_and_then)
  have "tame markers (\<lambda>w. case PIDS key of None \<Rightarrow> Some (Inl KeyError, w)
                                  | Some path \<Rightarrow> kill_pidfile k path w)" for key
  proof (cases "PIDS key")
    case None
    then show ?thesis by (simp add: tame_def frame_refl)
  next
    case (Some path)
    then have "path \<in> markers"
      by (auto simp: PIDS_def markers_def split: if_splits)
    with tame_mono [OF kill_pidfile_tame [OF cr oe, of path], of markers] Some
    show ?thesis by simp
  qed
  then show "tame markers (for_each (\<lambda>key w. case PIDS key of
                                    None \<Rightarrow> Some (Inl KeyError, w)
                                  | Some path \<Rightarrow> kill_pidfile k path w)
                 [''website'', ''network'', ''auth''])"
    by (rule tame_for_each)
next
  fix u :: unit
  show "tame markers (for_each (kill_by_pattern k)
                 [''nullspace-simulator'', ''nullspace-node'', ''start-local-network.sh'',
                  ''tsx src/server.ts'', ''node .*vite'', ''vite''])"
    by (rule tame_for_each) (rule kill_by_pattern_tame [OF cr oe])
qed

section \<open>Missing configuration\<close>

lemma check_config_missing:
  assumes "read_env_file w path ''VITE_IDENTITY'' = None \<or>
      read_env_file w path ''CONVEX_SELF_HOSTED_URL'' = None \<or>
      read_env_file w path ''CONVEX_SELF_HOSTED_ADMIN_KEY'' = None \<or>
      read_env_file w ''docker/convex/.env'' ''CONVEX_SERVICE_TOKEN'' = None \<or>
      read_env_file w ''docker/convex/.env'' ''STRIPE_SECRET_KEY'' = None \<or>
      read_env_file w ''docker/convex/.env'' ''STRIPE_WEBHOOK_SECRET'' = None \<or>
      files w (config_dir a @ ''/node0.yaml'') = None"
  shows "\<exists>msg. check_config k a path w = Some (Inr (Exit 1), print_stderr msg w)"
  using assms by (auto simp: check_config_def Let_def dict_get_def)

lemma read_env_file_cong: "files w' path = files w path \<Longrightarrow> read_env_file w' path = read_env_file w path"
  by (simp add: read_env_file_def)

lemma node0_not_marker: "d @ ''/node0.yaml'' \<notin> markers"
proof
  assume "d @ ''/node0.yaml'' \<in> markers"
  then have "rev (d @ ''/node0.yaml'') \<in> rev ` markers" by blast
  then show False by (auto simp: markers_def)
qed

lemma node0_not_env: "d @ ''/node0.yaml'' \<noteq> ''website/.env.local''"
proof
  assume "d @ ''/node0.yaml'' = ''website/.env.local''"
  then have "rev (d @ ''/node0.yaml'') = rev ''website/.env.local''" by simp
  then show False by simp
qed

text \<open>
  Claim C7. On a machine whose clock runs and whose system calls fail only with
  operating-system errors, a run of \<open>main\<close> in which a required key is absent from
  its env file, or the validator configuration is absent, returns, and the program exits
  with a non-zero status: by \<open>return 1\<close> from a configuration check, by
  \<open>sys.exit(1)\<close>, or by an exception of the cleanup before it. In every case the
  trace holds no \<open>Popen\<close> that was not there before, so no managed process was
  started, and every marker file is either gone or exactly as it was, so none was
  created.
\<close>

theorem main_fails_fast:
  assumes cr: "clock_runs k c" and oe: "os_errors_only k" and miss: "config_missing a w"
  shows "\<exists>r w'. main k a w = Some (r, w') \<and>
           (\<exists>n. exit_status r = Some n \<and> n \<noteq> 0) \<and>
           spawned (trace w') = spawned (trace w) \<and>
           (\<forall>name marker. PIDS name = Some marker \<longrightarrow>
              files w' marker = None \<or> files w' marker = files w marker)"
proof -
  let ?cleanup = "and_then (for_each (\<lambda>key w. case PIDS key of
                                    None \<Rightarrow> Some (Inl KeyError, w)
                                  | Some path \<Rightarrow> kill_pidfile k path w)
                 [''website'', ''network'', ''auth''])
       (\<lambda>u. for_each (kill_by_pattern k)
                 [''nullspace-simulator'', ''nullspace-node'', ''start-local-network.sh'',
                  ''tsx src/server.ts'', ''node .*vite'', ''vite''])"
  let ?rest = "\<lambda>u::unit. and_then ensure_website_env_local (\<lambda>website_env_path.
     check_config k a website_env_path)"
  have main_eq: "main k a w = and_then ?cleanup ?rest w"
    by (simp add: main_def and_then_def split: option.splits sum.splits prod.splits)
  from cleanup_tame [OF cr oe] obtain r1 w1 where
    cl: "?cleanup w = Some (r1, w1)" "frame markers w w1" "\<forall>n. r1 \<noteq> Inl (SystemExit n)"
    unfolding tame_def by blast
  from cl(2) have sp1: "spawned (trace w1) = spawned (trace w)"
    and fl1: "\<And>p. files w1 p = files w p \<or> (p \<in> markers \<and> files w1 p = None)"
    by (auto simp: frame_def)
  have mk: "marker \<in> markers" if "PIDS name = Some marker" for name marker
    using that by (auto simp: PIDS_def markers_def split: if_splits)
  have keep: "files w1 p = files w p" if "p \<notin> markers" for p
    using fl1 [of p] that by simp
  have goal1: "\<forall>name marker. PIDS name = Some marker \<longrightarrow>
              files w1 marker = None \<or> files w1 marker = files w marker"
    using fl1 by blast
  show ?thesis
  proof (cases r1)
    case (Inl e)
    with cl(1) main_eq have "main k a w = Some (Inl e, w1)" by (simp add: and_then_def)
    moreover from cl(3) Inl have "exit_status (Inl e) = Some 1" by (cases e) simp_all
    ultimately show ?thesis using sp1 goal1 by auto
  next
    case (Inr u)
    with cl(1) main_eq have m2: "main k a w = ?rest () w1" by (simp add: and_then_def)
    have web: "files w1 ''website/.env.local'' = files w ''website/.env.local''"
      and fb: "files w1 ''configs/local/.env.local'' = files w ''configs/local/.env.local''"
      and cv: "files w1 ''docker/convex/.env'' = files w ''docker/convex/.env''"
      by (rule keep, simp add: markers_def)+
    have n0: "files w1 (config_dir a @ ''/node0.yaml'') = files w (config_dir a @ ''/node0.yaml'')"
      by (rule keep) (rule node0_not_marker)
    show ?thesis
    proof (cases "files w ''website/.env.local''")
      case (Some present)
      then have src: "website_source w = ''website/.env.local''" by (simp add: website_source_def)
      from Some web have en: "ensure_website_env_local w1 = Some (Inr ''website/.env.local'', w1)"
        by (simp add: ensure_website_env_local_def)
      have "read_env_file w1 ''website/.env.local'' = read_env_file w (website_source w)"
        using web src by (simp add: read_env_file_def)
      moreover have "read_env_file w1 ''docker/convex/.env'' = read_env_file w ''docker/convex/.env''"
        using cv by (simp add: read_env_file_def)
      ultimately obtain msg where
        "check_config k a ''website/.env.local'' w1 = Some (Inr (Exit 1), print_stderr msg w1)"
        using check_config_missing [of w1 "''website/.env.local''" a k] miss n0
        unfolding config_missing_def by auto
      with m2 en have "main k a w = Some (Inr (Exit 1), print_stderr msg w1)"
        by (simp add: and_then_def)
      then show ?thesis using sp1 goal1
        by (auto simp: print_stderr_def spawned_append)
    next
      case None
      then have src: "website_source w = ''configs/local/.env.local''" by (simp add: website_source_def)
      show ?thesis
      proof (cases "files w ''configs/local/.env.local''")
        case nofb: None
        with None web fb have "ensure_website_env_local w1 =
            Some (Inl (SystemExit 1),
              print_stderr ''Missing website/.env.local and configs/local/.env.local. Create one first.'' w1)"
          by (simp add: ensure_website_env_local_def)
        with m2 have "main k a w = Some (Inl (SystemExit 1),
              print_stderr ''Missing website/.env.local and configs/local/.env.local. Create one first.'' w1)"
          by (simp add: and_then_def)
        then show ?thesis using sp1 goal1
          by (auto simp: print_stderr_def spawned_append)
      next
        case (Some fallback)
        let ?w2 = "write_text ''website/.env.local'' fallback w1"
        from Some None web fb have en: "ensure_website_env_local w1 = Some (Inr ''website/.env.local'', ?w2)"
          by (simp add: ensure_website_env_local_def)
        have "read_env_file ?w2 ''website/.env.local'' = read_env_file w (website_source w)"
          using Some src by (simp add: read_env_file_def write_text_def)
        moreover have "read_env_file ?w2 ''docker/convex/.env'' = read_env_file w ''docker/convex/.env''"
          using cv by (simp add: read_env_file_def write_text_def)
        moreover have "files ?w2 (config_dir a @ ''/node0.yaml'') = files w (config_dir a @ ''/node0.yaml'')"
          using n0 node0_not_env [of "config_dir a"] by (simp add: write_text_def)
        ultimately obtain msg where
          "check_config k a ''website/.env.local'' ?w2 = Some (Inr (Exit 1), print_stderr msg ?w2)"
          using check_config_missing [of ?w2 "''website/.env.local''" a k] miss
          unfolding config_missing_def by auto
        with m2 en have fin: "main k a w = Some (Inr (Exit 1), print_stderr msg ?w2)"
          by (simp add: and_then_def)
        have "files (print_stderr msg ?w2) marker = files w1 marker" if "PIDS name = Some marker" for name marker
          using mk [OF that] by (auto simp: print_stderr_def write_text_def markers_def)
        with goal1 have "\<forall>name marker. PIDS name = Some marker \<longrightarrow>
              files (print_stderr msg ?w2) marker = None \<or> files (print_stderr msg ?w2) marker = files w marker"
          by metis
        with fin sp1 show ?thesis
          by (auto simp: print_stderr_def write_text_def spawned_append)
      qed
    qed
  qed
qed

theorem main_fails_fast_witness:
  "clock_runs sim now \<and> os_errors_only sim \<and>
   config_missing
     \<lparr>web_port = 5173, config_dir = ''configs/local'', nodes = 4, fresh = False, no_build = False\<rparr>
     (boot [(5, Obedient)] [(''website/.env.local'', ''VITE_IDENTITY=abc''), (''network.pid'', ''5'')]) \<and>
   (\<exists>r w'. main sim
       \<lparr>web_port = 5173, config_dir = ''configs/local'', nodes = 4, fresh = False, no_build = False\<rparr>
       (boot [(5, Obedient)] [(''website/.env.local'', ''VITE_IDENTITY=abc''), (''network.pid'', ''5'')])
         = Some (r, w') \<and>
       (\<exists>n. exit_status r = Some n \<and> n \<noteq> 0) \<and>
       spawned (trace w') = [] \<and>
       (\<forall>name marker. PIDS name = Some marker \<longrightarrow>
          files w' marker = None \<or>
          files w' marker =
            files (boot [(5, Obedient)] [(''website/.env.local'', ''VITE_IDENTITY=abc''),
                                         (''network.pid'', ''5'')]) marker))"
proof -
  let ?a = "\<lparr>web_port = 5173, config_dir = ''configs/local'', nodes = 4, fresh = False, no_build = False\<rparr>"
  let ?w = "boot [(5, Obedient)] [(''website/.env.local'', ''VITE_IDENTITY=abc''), (''network.pid'', ''5'')]"
  have c: "clock_runs sim now"
    by (auto simp: clock_runs_def sim_def sim_kill_def reap_def split: option.splits temper.splits)
  have e: "os_errors_only sim"
    by (auto simp: os_errors_only_def sim_def sim_kill_def split: option.splits temper.splits)
  have m: "config_missing ?a ?w"
    by (simp add: config_missing_def website_source_def boot_def read_env_file_def splitlines_def
        add_env_line_def strip_def isspace_def Let_def is_linebreak_def)
  have t: "spawned (trace ?w) = []" by (simp add: boot_def)
  from main_fails_fast [OF c e m] c e m t show ?thesis by simp
qed

section \<open>The escalation protocol\<close>





lemma polling_no_term: "polling pid start timeout evs \<Longrightarrow> Kill p SIGTERM r \<notin> set evs"
proof (induction pid start timeout evs rule: polling.induct)
  case (1 pid start timeout t evs)
  then show ?case
    by (auto split: if_splits list.splits event.splits signal.splits)
qed simp_all





end
